theory Spec2Isabelle
  imports Main
begin

section \<open>Python values and exceptions\<close>

text \<open>
  The values that flow through \<^verbatim>\<open>tests/templates.py\<close>: integers (unbounded), booleans
  (a subclass of \<^verbatim>\<open>int\<close> in Python), strings, \<^verbatim>\<open>None\<close> and lists. Lists stand for the
  unhashable values: they cannot be members of a Python \<^verbatim>\<open>set\<close>.
\<close>

datatype pyval = PInt int | PBool bool | PStr string | PNone | PList "pyval list"

text \<open>
  One external command started through invoke's \<^verbatim>\<open>Context\<close>: \<^verbatim>\<open>context.run\<close> or
  \<^verbatim>\<open>context.sudo\<close>, with the stack of directories entered by \<^verbatim>\<open>context.cd\<close> at the time
  of the call (innermost last) and, for \<^verbatim>\<open>sudo\<close>, the password handed over.
\<close>

datatype invocation =
    Run (cwds: "string list") (command: string)
  | Sudo (cwds: "string list") (command: string) (password: string)

text \<open>
  Exceptions are values. A message is kept in structured form: the f-string of the
  validation error interpolates a Python set, whose printed order is not determined, so
  the message carries the set itself.
\<close>

datatype message =
    Expected_numbers "pyval set"
      \<comment> \<open>\<^verbatim>\<open>Expected numbers in sequence, but found non-number: {...}\<close>\<close>
  | Unhashable_type
      \<comment> \<open>\<^verbatim>\<open>unhashable type: 'list'\<close>, from building a set\<close>
  | Not_supported
      \<comment> \<open>\<^verbatim>\<open>'>' not supported between instances of ...\<close>\<close>
  | Int_argument
      \<comment> \<open>\<^verbatim>\<open>int() argument must be a string, a bytes-like object or a real number\<close>\<close>
  | Not_subscriptable
      \<comment> \<open>subscripting a value that is not a mapping\<close>
  | Empty_max
      \<comment> \<open>\<^verbatim>\<open>max()\<close> of an empty sequence\<close>
  | Invalid_literal string
      \<comment> \<open>\<^verbatim>\<open>invalid literal for int() with base 10\<close>\<close>
  | Exceeds_digit_limit
      \<comment> \<open>\<^verbatim>\<open>Exceeds the limit (4300 digits) for integer string conversion\<close>\<close>

datatype error =
    TypeError message
  | ValueError message
  | KeyError string
  | FileNotFoundError
  | YAMLError
  | UnexpectedExit invocation int

subsection \<open>Built-ins used by the source\<close>

text \<open>\<^verbatim>\<open>isinstance(v, int)\<close>: true of integers and of booleans.\<close>

fun isinstance_int :: "pyval \<Rightarrow> bool" where
  "isinstance_int (PInt _) = True"
| "isinstance_int (PBool _) = True"
| "isinstance_int _ = False"

text \<open>The integer a value of class \<^verbatim>\<open>int\<close> stands for: \<^verbatim>\<open>True\<close> is 1, \<^verbatim>\<open>False\<close> is 0.\<close>

fun as_int :: "pyval \<Rightarrow> int option" where
  "as_int (PInt i) = Some i"
| "as_int (PBool b) = Some (if b then 1 else 0)"
| "as_int _ = None"

text \<open>Whether a value can be a member of a set.\<close>

fun hashable :: "pyval \<Rightarrow> bool" where
  "hashable (PList _) = False"
| "hashable _ = True"

text \<open>Python's \<^verbatim>\<open>==\<close>: numeric between integers and booleans, structural otherwise.\<close>

fun py_eq :: "pyval \<Rightarrow> pyval \<Rightarrow> bool"
  and py_eq_list :: "pyval list \<Rightarrow> pyval list \<Rightarrow> bool" where
  "py_eq (PStr a) (PStr b) = (a = b)"
| "py_eq PNone PNone = True"
| "py_eq (PList xs) (PList ys) = py_eq_list xs ys"
| "py_eq a b = (case (as_int a, as_int b) of (Some i, Some j) \<Rightarrow> i = j | _ \<Rightarrow> False)"
| "py_eq_list [] [] = True"
| "py_eq_list (x # xs) (y # ys) = (py_eq x y \<and> py_eq_list xs ys)"
| "py_eq_list _ _ = False"

text \<open>Strings compare lexicographically by code unit.\<close>

fun str_gt :: "string \<Rightarrow> string \<Rightarrow> bool" where
  "str_gt [] _ = False"
| "str_gt (a # as) [] = True"
| "str_gt (a # as) (b # bs) =
     (if (of_char a :: nat) > of_char b then True
      else if a = b then str_gt as bs else False)"

text \<open>
  Python's \<^verbatim>\<open>>\<close>: numeric between integers and booleans, lexicographic on two strings and
  on two lists (the first pair of unequal items decides), a \<^verbatim>\<open>TypeError\<close> otherwise.
\<close>

fun py_gt :: "pyval \<Rightarrow> pyval \<Rightarrow> error + bool"
  and py_gt_list :: "pyval list \<Rightarrow> pyval list \<Rightarrow> error + bool" where
  "py_gt (PStr a) (PStr b) = Inr (str_gt a b)"
| "py_gt (PList xs) (PList ys) = py_gt_list xs ys"
| "py_gt a b =
     (case (as_int a, as_int b) of
        (Some i, Some j) \<Rightarrow> Inr (i > j)
      | _ \<Rightarrow> Inl (TypeError Not_supported))"
| "py_gt_list [] ys = Inr False"
| "py_gt_list (x # xs) [] = Inr True"
| "py_gt_list (x # xs) (y # ys) = (if py_eq x y then py_gt_list xs ys else py_gt x y)"

text \<open>
  \<^verbatim>\<open>max(iterable)\<close>: the first item is the candidate; a later item replaces it only when
  it is strictly greater, so of several maximal items the first is returned. An empty
  iterable raises \<^verbatim>\<open>ValueError\<close>; a failing comparison propagates.
\<close>

fun max_loop :: "pyval \<Rightarrow> pyval list \<Rightarrow> error + pyval" where
  "max_loop m [] = Inr m"
| "max_loop m (x # xs) =
     (case py_gt x m of
        Inl e \<Rightarrow> Inl e
      | Inr b \<Rightarrow> max_loop (if b then x else m) xs)"

definition py_max :: "pyval list \<Rightarrow> error + pyval" where
  "py_max xs = (case xs of [] \<Rightarrow> Inl (ValueError Empty_max) | x # rest \<Rightarrow> max_loop x rest)"

text \<open>
  \<^verbatim>\<open>int(value)\<close> in base 10. A \<^typ>\<open>string\<close> is a list of 8-bit characters, and the
  model is of ASCII text: surrounding whitespace (space, tab, line feed, vertical tab,
  form feed, carriage return) is dropped, one sign is allowed, and the digits may be
  separated by single underscores; a well-formed literal of more than 4300 digits (the
  interpreter's default limit) is refused. Text outside ASCII, where Python also knows
  further whitespace and digit characters, is outside the model. An integer or a boolean
  converts to its value; \<^verbatim>\<open>None\<close> and lists are a \<^verbatim>\<open>TypeError\<close>.
\<close>

definition is_space :: "char \<Rightarrow> bool" where
  "is_space c = (let n = (of_char c :: nat) in (9 \<le> n \<and> n \<le> 13) \<or> n = 32)"

definition strip :: "string \<Rightarrow> string" where
  "strip s = rev (dropWhile is_space (rev (dropWhile is_space s)))"

definition digit_val :: "char \<Rightarrow> nat option" where
  "digit_val c =
     (let n = (of_char c :: nat) in if 48 \<le> n \<and> n \<le> 57 then Some (n - 48) else None)"

fun more_digits :: "nat \<Rightarrow> string \<Rightarrow> nat option" where
  "more_digits acc [] = Some acc"
| "more_digits acc (c # cs) =
     (if c = CHR ''_'' then
        (case cs of
           [] \<Rightarrow> None
         | c' # cs' \<Rightarrow>
             (case digit_val c' of
                None \<Rightarrow> None
              | Some d \<Rightarrow> more_digits (10 * acc + d) cs'))
      else
        (case digit_val c of
           None \<Rightarrow> None
         | Some d \<Rightarrow> more_digits (10 * acc + d) cs))"

definition decimal :: "string \<Rightarrow> nat option" where
  "decimal s =
     (case s of
        [] \<Rightarrow> None
      | c # cs \<Rightarrow> (case digit_val c of None \<Rightarrow> None | Some d \<Rightarrow> more_digits d cs))"

definition max_str_digits :: nat where
  "max_str_digits = 4300"

definition int_of_str :: "string \<Rightarrow> error + int" where
  "int_of_str s =
     (let t = strip s;
          (negative, body) =
            (case t of
               [] \<Rightarrow> (False, [])
             | c # cs \<Rightarrow>
                 if c = CHR ''-'' then (True, cs)
                 else if c = CHR ''+'' then (False, cs)
                 else (False, t))
      in case decimal body of
           None \<Rightarrow> Inl (ValueError (Invalid_literal s))
         | Some n \<Rightarrow>
             if length (filter (\<lambda>c. c \<noteq> CHR ''_'') body) > max_str_digits
             then Inl (ValueError Exceeds_digit_limit)
             else Inr (if negative then - int n else int n))"

fun py_int :: "pyval \<Rightarrow> error + int" where
  "py_int (PStr s) = int_of_str s"
| "py_int (PInt i) = Inr i"
| "py_int (PBool b) = Inr (if b then 1 else 0)"
| "py_int _ = Inl (TypeError Int_argument)"

section \<open>The maximum of a sequence, with validation\<close>

text \<open>
  The set comprehension of \<^verbatim>\<open>function_under_test\<close> and of
  \<^verbatim>\<open>ClassUnderTest._construction_guard_clause\<close>: the elements that are not instances of
  \<^verbatim>\<open>int\<close>, collected into a set. Adding an unhashable element to the set raises
  \<^verbatim>\<open>TypeError\<close> from the comprehension itself.
\<close>

definition non_numbers_in_sequence :: "pyval list \<Rightarrow> error + pyval set" where
  "non_numbers_in_sequence xs =
     (let offending = filter (\<lambda>maybe_number. \<not> isinstance_int maybe_number) xs
      in if list_all hashable offending then Inr (set offending)
         else Inl (TypeError Unhashable_type))"

definition function_under_test :: "pyval list \<Rightarrow> error + pyval" where
  "function_under_test sequence_of_numbers =
     (case non_numbers_in_sequence sequence_of_numbers of
        Inl e \<Rightarrow> Inl e
      | Inr non_numbers \<Rightarrow>
          if non_numbers \<noteq> {} then Inl (TypeError (Expected_numbers non_numbers))
          else py_max sequence_of_numbers)"

record class_under_test =
  numbers_sequence :: "pyval list"

definition construction_guard_clause :: "pyval list \<Rightarrow> error + unit" where
  "construction_guard_clause xs =
     (case non_numbers_in_sequence xs of
        Inl e \<Rightarrow> Inl e
      | Inr non_numbers \<Rightarrow>
          if non_numbers \<noteq> {} then Inl (TypeError (Expected_numbers non_numbers))
          else Inr ())"

definition ClassUnderTest :: "pyval list \<Rightarrow> error + class_under_test" where
  "ClassUnderTest xs =
     (case construction_guard_clause xs of
        Inl e \<Rightarrow> Inl e
      | Inr _ \<Rightarrow> Inr \<lparr>numbers_sequence = xs\<rparr>)"

definition method_under_test :: "class_under_test \<Rightarrow> error + pyval" where
  "method_under_test self = py_max (numbers_sequence self)"

section \<open>The key-value store and its test doubles\<close>

text \<open>
  \<^verbatim>\<open>AbstractRepository\<close> is a protocol with two methods. An implementation is a pair of
  functions over the state of its instances; a method returns its result (a value or the
  exception raised) together with the instance after the call. \<^verbatim>\<open>create\<close> returns
  \<^verbatim>\<open>None\<close>.
\<close>

record 's AbstractRepository =
  create :: "string \<Rightarrow> string \<Rightarrow> 's \<Rightarrow> (error + pyval) \<times> 's"
  read :: "string \<Rightarrow> 's \<Rightarrow> (error + pyval) \<times> 's"

subsection \<open>CloudRepository\<close>

text \<open>
  The instance holds \<^verbatim>\<open>_data_store\<close>. \<^verbatim>\<open>_cloud_operation\<close> sleeps for ten seconds; the
  seconds slept so far are counted beside the dictionary, so that the latency is visible
  in the model.
\<close>

record cloud_repository =
  data_store :: "string \<rightharpoonup> string"
  slept :: nat

definition CloudRepository_init :: cloud_repository where
  "CloudRepository_init = \<lparr>data_store = Map.empty, slept = 0\<rparr>"

definition cloud_operation :: "cloud_repository \<Rightarrow> cloud_repository" where
  "cloud_operation self = self\<lparr>slept := slept self + 10\<rparr>"

definition CloudRepository_create ::
  "string \<Rightarrow> string \<Rightarrow> cloud_repository \<Rightarrow> (error + pyval) \<times> cloud_repository" where
  "CloudRepository_create key val self =
     (let self = cloud_operation self
      in (Inr PNone, self\<lparr>data_store := (data_store self)(key \<mapsto> val)\<rparr>))"

definition CloudRepository_read ::
  "string \<Rightarrow> cloud_repository \<Rightarrow> (error + pyval) \<times> cloud_repository" where
  "CloudRepository_read key self =
     (let self = cloud_operation self
      in (case data_store self key of
            None \<Rightarrow> Inl (KeyError key)
          | Some val \<Rightarrow> Inr (PStr val), self))"

definition CloudRepository :: "cloud_repository AbstractRepository" where
  "CloudRepository = \<lparr>create = CloudRepository_create, read = CloudRepository_read\<rparr>"

subsection \<open>DummyRepo\<close>

text \<open>Both bodies are \<^verbatim>\<open>...\<close>: the methods return \<^verbatim>\<open>None\<close>. There are no fields.\<close>

definition DummyRepo :: "unit AbstractRepository" where
  "DummyRepo = \<lparr>create = (\<lambda>key val self. (Inr PNone, self)),
                 read = (\<lambda>key self. (Inr PNone, self))\<rparr>"

subsection \<open>FakeRepo\<close>

record fake_repo =
  data :: "string \<rightharpoonup> string"

definition FakeRepo_init :: fake_repo where
  "FakeRepo_init = \<lparr>data = Map.empty\<rparr>"

definition FakeRepo_create ::
  "string \<Rightarrow> string \<Rightarrow> fake_repo \<Rightarrow> (error + pyval) \<times> fake_repo" where
  "FakeRepo_create key val self = (Inr PNone, self\<lparr>data := (data self)(key \<mapsto> val)\<rparr>)"

definition FakeRepo_read :: "string \<Rightarrow> fake_repo \<Rightarrow> (error + pyval) \<times> fake_repo" where
  "FakeRepo_read key self =
     (case data self key of
        None \<Rightarrow> Inl (KeyError key)
      | Some val \<Rightarrow> Inr (PStr val), self)"

definition FakeRepo :: "fake_repo AbstractRepository" where
  "FakeRepo = \<lparr>create = FakeRepo_create, read = FakeRepo_read\<rparr>"

subsection \<open>StubRepo\<close>

definition StubRepo :: "unit AbstractRepository" where
  "StubRepo = \<lparr>create = (\<lambda>key val self. (Inr PNone, self)),
                read = (\<lambda>key self. (Inr (PStr ''2''), self))\<rparr>"

subsection \<open>MockRepo\<close>

record mock_repo =
  create_call_count :: int
  create_call_args :: "(string \<times> string) list"
  read_call_count :: int
  read_call_args :: "string list"

definition MockRepo_init :: mock_repo where
  "MockRepo_init =
     \<lparr>create_call_count = 0, create_call_args = [],
      read_call_count = 0, read_call_args = []\<rparr>"

definition MockRepo_create ::
  "string \<Rightarrow> string \<Rightarrow> mock_repo \<Rightarrow> (error + pyval) \<times> mock_repo" where
  "MockRepo_create key val self =
     (let self = self\<lparr>create_call_count := create_call_count self + 1\<rparr>;
          self = self\<lparr>create_call_args := create_call_args self @ [(key, val)]\<rparr>
      in (Inr PNone, self))"

definition MockRepo_read :: "string \<Rightarrow> mock_repo \<Rightarrow> (error + pyval) \<times> mock_repo" where
  "MockRepo_read key self =
     (let self = self\<lparr>read_call_count := read_call_count self + 1\<rparr>;
          self = self\<lparr>read_call_args := read_call_args self @ [key]\<rparr>
      in (Inr (PStr ''2''), self))"

definition MockRepo :: "mock_repo AbstractRepository" where
  "MockRepo = \<lparr>create = MockRepo_create, read = MockRepo_read\<rparr>"

subsection \<open>Sequences of calls\<close>

text \<open>
  A caller's history on one instance: the calls in order. Every call is made, whatever
  the earlier ones returned or raised (a caller that catches the exception goes on), and
  the results are collected in call order.
\<close>

datatype call = Create string string | Read string

fun call_repo :: "'s AbstractRepository \<Rightarrow> call \<Rightarrow> 's \<Rightarrow> (error + pyval) \<times> 's" where
  "call_repo repo (Create key val) self = create repo key val self"
| "call_repo repo (Read key) self = read repo key self"

fun calls :: "'s AbstractRepository \<Rightarrow> call list \<Rightarrow> 's \<Rightarrow> (error + pyval) list \<times> 's" where
  "calls repo [] self = ([], self)"
| "calls repo (c # cs) self =
     (case call_repo repo c self of
        (r, self') \<Rightarrow> (case calls repo cs self' of (rs, self'') \<Rightarrow> (r # rs, self'')))"

text \<open>The \<^verbatim>\<open>(key, value)\<close> pairs of the \<^verbatim>\<open>create\<close> calls and the keys of the \<^verbatim>\<open>read\<close> calls.\<close>

fun created :: "call list \<Rightarrow> (string \<times> string) list" where
  "created [] = []"
| "created (Create key val # cs) = (key, val) # created cs"
| "created (Read key # cs) = created cs"

fun were_read :: "call list \<Rightarrow> string list" where
  "were_read [] = []"
| "were_read (Create key val # cs) = were_read cs"
| "were_read (Read key # cs) = key # were_read cs"

subsection \<open>The clients in the tests\<close>

definition get_and_parse_value ::
  "'s AbstractRepository \<Rightarrow> string \<Rightarrow> 's \<Rightarrow> (error + int) \<times> 's" where
  "get_and_parse_value repo key self =
     (case read repo key self of
        (Inl e, self') \<Rightarrow> (Inl e, self')
      | (Inr val, self') \<Rightarrow> (py_int val, self'))"



section \<open>The session hook of conftest.py\<close>

record session =
  exitstatus :: int

definition pytest_sessionstart :: "session \<Rightarrow> session" where
  "pytest_sessionstart session =
     (if exitstatus session = 5 then session\<lparr>exitstatus := 0\<rparr> else session)"

text \<open>
  How pytest drives a session (its \<^verbatim>\<open>wrap_session\<close>; pytest is a library, the order of
  its steps is taken from its documentation): the session object is created with exit
  status 0, the \<^verbatim>\<open>pytest_sessionstart\<close> hooks run, then collection and the tests run and
  their outcome is stored as the session's exit status (5 when no test was collected),
  and that status is what the process exits with. The hook of a \<^verbatim>\<open>conftest.py\<close> is a
  parameter; so is the outcome of the run.
\<close>

definition wrap_session :: "(session \<Rightarrow> session) \<Rightarrow> int \<Rightarrow> int" where
  "wrap_session sessionstart_hook outcome =
     (let session = \<lparr>exitstatus = 0\<rparr>;
          session = sessionstart_hook session;
          session = session\<lparr>exitstatus := outcome\<rparr>
      in exitstatus session)"

section \<open>The update task of tasks.py\<close>

text \<open>
  What \<^verbatim>\<open>yaml.load\<close> returns: a mapping from names to texts (the declared
  \<^verbatim>\<open>dict[str, str]\<close>), or a document that is not a mapping.
\<close>

datatype yaml_value = YMapping "string \<rightharpoonup> string" | YOther

text \<open>
  \<^verbatim>\<open>_read_secrets\<close>: the world gives the result of \<^verbatim>\<open>SECRETS.read_text()\<close> (the text, or
  the exception of the file system) and the parser \<^verbatim>\<open>yaml.load\<close>.
\<close>

definition read_secrets ::
  "(string \<Rightarrow> error + yaml_value) \<Rightarrow> error + string \<Rightarrow> error + yaml_value" where
  "read_secrets yaml_load read_text =
     (case read_text of Inl e \<Rightarrow> Inl e | Inr stream \<Rightarrow> yaml_load stream)"

definition getitem :: "yaml_value \<Rightarrow> string \<Rightarrow> error + string" where
  "getitem v key =
     (case v of
        YMapping m \<Rightarrow> (case m key of None \<Rightarrow> Inl (KeyError key) | Some x \<Rightarrow> Inr x)
      | YOther \<Rightarrow> Inl (TypeError Not_subscriptable))"

text \<open>
  invoke's \<^verbatim>\<open>Context\<close>: the stack \<^verbatim>\<open>command_cwds\<close> of directories entered with \<^verbatim>\<open>cd\<close>,
  and, for the model, the invocations made so far. The world answers each invocation
  with an exit code; \<^verbatim>\<open>run\<close> and \<^verbatim>\<open>sudo\<close> raise \<^verbatim>\<open>UnexpectedExit\<close> when it is not 0.
\<close>

record Context =
  command_cwds :: "string list"
  invoked :: "invocation list"

definition context_run ::
  "(invocation \<Rightarrow> int) \<Rightarrow> string \<Rightarrow> Context \<Rightarrow> (error + unit) \<times> Context" where
  "context_run exit_code cmd ctx =
     (let inv = Run (command_cwds ctx) cmd;
          ctx = ctx\<lparr>invoked := invoked ctx @ [inv]\<rparr>
      in (if exit_code inv = 0 then Inr () else Inl (UnexpectedExit inv (exit_code inv)), ctx))"

definition context_sudo ::
  "(invocation \<Rightarrow> int) \<Rightarrow> string \<Rightarrow> string \<Rightarrow> Context \<Rightarrow> (error + unit) \<times> Context" where
  "context_sudo exit_code cmd pw ctx =
     (let inv = Sudo (command_cwds ctx) cmd pw;
          ctx = ctx\<lparr>invoked := invoked ctx @ [inv]\<rparr>
      in (if exit_code inv = 0 then Inr () else Inl (UnexpectedExit inv (exit_code inv)), ctx))"

text \<open>
  \<^verbatim>\<open>with context.cd(path):\<close> pushes the path, runs the block and pops the path again,
  also when the block raises.
\<close>

definition context_cd ::
  "string \<Rightarrow> (Context \<Rightarrow> (error + unit) \<times> Context) \<Rightarrow> Context \<Rightarrow> (error + unit) \<times> Context"
  where
  "context_cd path block ctx =
     (case block (ctx\<lparr>command_cwds := command_cwds ctx @ [path]\<rparr>) of
        (r, ctx') \<Rightarrow> (r, ctx'\<lparr>command_cwds := butlast (command_cwds ctx')\<rparr>))"

text \<open>One statement after another: an exception skips the statements that follow.\<close>

definition and_then ::
  "(error + unit) \<times> Context \<Rightarrow> (Context \<Rightarrow> (error + unit) \<times> Context)
   \<Rightarrow> (error + unit) \<times> Context" where
  "and_then r next_statement =
     (case r of (Inl e, ctx) \<Rightarrow> (Inl e, ctx) | (Inr _, ctx) \<Rightarrow> next_statement ctx)"

definition cmd_clone_repo :: string where
  "cmd_clone_repo = ''git clone https://aur.archlinux.org/visual-studio-code-insiders-bin.git''"

definition repo_path :: string where
  "repo_path = ''visual-studio-code-insiders-bin''"

definition cmd_makepkg :: string where
  "cmd_makepkg = ''echo '' @ [CHR 0x27] @ ''Y'' @ [CHR 0x27] @ '' | makepkg -si''"

definition update_vscode ::
  "(invocation \<Rightarrow> int) \<Rightarrow> (string \<Rightarrow> error + yaml_value) \<Rightarrow> error + string
   \<Rightarrow> Context \<Rightarrow> (error + unit) \<times> Context" where
  "update_vscode exit_code yaml_load read_text ctx =
     (case read_secrets yaml_load read_text of
        Inl e \<Rightarrow> (Inl e, ctx)
      | Inr secrets \<Rightarrow>
          (case getitem secrets ''password'' of
             Inl e \<Rightarrow> (Inl e, ctx)
           | Inr pw \<Rightarrow>
               and_then (context_run exit_code cmd_clone_repo ctx) (\<lambda>ctx.
               and_then
                 (context_cd repo_path (\<lambda>ctx.
                    and_then (context_run exit_code cmd_makepkg ctx) (\<lambda>ctx.
                    context_sudo exit_code ''pacman -U'' pw ctx)) ctx) (\<lambda>ctx.
               context_sudo exit_code ''rm -rf ./visual-studio-code-insiders-bin'' pw ctx))))"

text \<open>
  The contract in the words of the specification, to compare the task with: the four
  steps for a password, and a sequence of steps run in order up to the first one whose
  exit code is not 0, which is raised as it is.
\<close>

definition steps :: "string \<Rightarrow> invocation list" where
  "steps pw =
     [Run [] cmd_clone_repo,
      Run [repo_path] cmd_makepkg,
      Sudo [repo_path] ''pacman -U'' pw,
      Sudo [] ''rm -rf ./visual-studio-code-insiders-bin'' pw]"

fun in_strict_sequence ::
  "(invocation \<Rightarrow> int) \<Rightarrow> invocation list \<Rightarrow> (error + unit) \<times> invocation list" where
  "in_strict_sequence exit_code [] = (Inr (), [])"
| "in_strict_sequence exit_code (step # rest) =
     (if exit_code step = 0 then
        (case in_strict_sequence exit_code rest of (r, later) \<Rightarrow> (r, step # later))
      else (Inl (UnexpectedExit step (exit_code step)), [step]))"

section \<open>Properties of the maximum with validation\<close>

subsection \<open>Comparing and maximising integers and booleans\<close>

lemma py_gt_as_int:
  "as_int a = Some i \<Longrightarrow> as_int b = Some j \<Longrightarrow> py_gt a b = Inr (i > j)"
  by (cases a; cases b) auto

lemma isinstance_int_as_int: "isinstance_int v \<longleftrightarrow> (\<exists>i. as_int v = Some i)"
  by (cases v) auto

lemma max_loop_ints:
  "isinstance_int m \<Longrightarrow> list_all isinstance_int xs \<Longrightarrow>
   \<exists>r. max_loop m xs = Inr r \<and> r \<in> set (m # xs) \<and>
       (\<forall>x \<in> set (m # xs). the (as_int x) \<le> the (as_int r))"
proof (induction xs arbitrary: m)
  case Nil
  then show ?case by simp
next
  case (Cons x xs)
  from Cons.prems obtain i j where i: "as_int m = Some i" and j: "as_int x = Some j"
    by (auto simp: isinstance_int_as_int)
  let ?m' = "if j > i then x else m"
  have step: "max_loop m (x # xs) = max_loop ?m' xs"
    using i j by (simp add: py_gt_as_int)
  have "isinstance_int ?m'" "list_all isinstance_int xs"
    using Cons.prems by auto
  from Cons.IH[OF this] obtain r where r: "max_loop ?m' xs = Inr r" "r \<in> set (?m' # xs)"
     "\<forall>y \<in> set (?m' # xs). the (as_int y) \<le> the (as_int r)"
    by blast
  have "the (as_int m) \<le> the (as_int r)" "the (as_int x) \<le> the (as_int r)"
    using r(3) i j by (auto split: if_splits)
  with r step show ?case by (auto split: if_splits)
qed

lemma non_numbers_all_int:
  "list_all isinstance_int xs \<Longrightarrow> non_numbers_in_sequence xs = Inr {}"
  by (induction xs) (auto simp: non_numbers_in_sequence_def)

lemma py_max_ints:
  assumes "xs \<noteq> []" "list_all isinstance_int xs"
  shows "\<exists>r. py_max xs = Inr r \<and> r \<in> set xs \<and>
       (\<forall>x \<in> set xs. the (as_int x) \<le> the (as_int r))"
proof -
  from assms obtain m rest where xs: "xs = m # rest" by (cases xs) auto
  with assms max_loop_ints[of m rest] show ?thesis
    by (simp add: py_max_def)
qed

lemma function_under_test_all_int:
  "list_all isinstance_int xs \<Longrightarrow> function_under_test xs = py_max xs"
  by (simp add: function_under_test_def non_numbers_all_int)

lemma py_max_ints_no_type_error:
  assumes "list_all isinstance_int xs"
  shows "py_max xs \<noteq> Inl (TypeError m)"
proof (cases "xs = []")
  case True
  then show ?thesis by (simp add: py_max_def)
next
  case False
  from py_max_ints[OF False assms] show ?thesis by auto
qed

lemma non_numbers_hashable:
  assumes "\<forall>x \<in> set xs. \<not> isinstance_int x \<longrightarrow> hashable x"
  shows "non_numbers_in_sequence xs = Inr {x \<in> set xs. \<not> isinstance_int x}"
proof -
  have "list_all hashable (filter (\<lambda>x. \<not> isinstance_int x) xs)"
    using assms by (simp add: list_all_iff)
  then show ?thesis by (simp add: non_numbers_in_sequence_def)
qed

lemma non_numbers_unhashable:
  assumes "\<exists>x \<in> set xs. \<not> isinstance_int x \<and> \<not> hashable x"
  shows "non_numbers_in_sequence xs = Inl (TypeError Unhashable_type)"
proof -
  have "\<not> list_all hashable (filter (\<lambda>x. \<not> isinstance_int x) xs)"
    using assms by (auto simp: list_all_iff)
  then show ?thesis by (simp add: non_numbers_in_sequence_def)
qed

lemma py_max_PInt:
  assumes "ns \<noteq> []"
  shows "py_max (map PInt ns) = Inr (PInt (Max (set ns)))"
proof -
  have "map PInt ns \<noteq> []" "list_all isinstance_int (map PInt ns)"
    using assms by (auto simp: list_all_iff)
  from py_max_ints[OF this] obtain r where r: "py_max (map PInt ns) = Inr r"
    "r \<in> set (map PInt ns)" "\<forall>x \<in> set (map PInt ns). the (as_int x) \<le> the (as_int r)"
    by blast
  from r(2) obtain k where k: "r = PInt k" "k \<in> set ns" by auto
  have "\<forall>n \<in> set ns. n \<le> k" using r(3) k by auto
  with k have "Max (set ns) = k" by (intro Max_eqI) auto
  with r k show ?thesis by simp
qed

subsection \<open>The maximum of a sequence of integers\<close>

text \<open>
  Claim C1. For every non-empty sequence whose elements are all integers,
  \<^verbatim>\<open>function_under_test\<close> returns the maximum of the sequence in the order of the
  integers; the constructor of \<^verbatim>\<open>ClassUnderTest\<close> accepts the sequence, and
  \<^verbatim>\<open>method_under_test\<close> on the object returns the same maximum.
\<close>

theorem function_under_test_returns_maximum:
  assumes "ns \<noteq> []"
  shows "function_under_test (map PInt ns) = Inr (PInt (Max (set ns)))
       \<and> ClassUnderTest (map PInt ns) = Inr \<lparr>numbers_sequence = map PInt ns\<rparr>
       \<and> method_under_test \<lparr>numbers_sequence = map PInt ns\<rparr> = Inr (PInt (Max (set ns)))"
proof -
  have "list_all isinstance_int (map PInt ns)" by (simp add: list_all_iff)
  then have "non_numbers_in_sequence (map PInt ns) = Inr {}" by (rule non_numbers_all_int)
  then show ?thesis using py_max_PInt[OF assms]
    by (simp add: function_under_test_def ClassUnderTest_def construction_guard_clause_def
        method_under_test_def)
qed

theorem function_under_test_returns_maximum_witness:
  "[1, 2, 3, 4, 5] \<noteq> ([] :: int list)
   \<and> function_under_test [PInt 1, PInt 2, PInt 3, PInt 4, PInt 5] = Inr (PInt 5)
   \<and> ClassUnderTest [PInt 1, PInt 2, PInt 3, PInt 4, PInt 5]
       = Inr \<lparr>numbers_sequence = [PInt 1, PInt 2, PInt 3, PInt 4, PInt 5]\<rparr>
   \<and> method_under_test \<lparr>numbers_sequence = [PInt 1, PInt 2, PInt 3, PInt 4, PInt 5]\<rparr>
       = Inr (PInt 5)"
  using function_under_test_returns_maximum [of "[1, 2, 3, 4, 5]"] by simp

subsection \<open>The validation error\<close>

text \<open>
  What \<^verbatim>\<open>function_under_test\<close> does with elements that are not instances of \<^verbatim>\<open>int\<close>. It
  raises a \<^verbatim>\<open>TypeError\<close> exactly when the sequence has such an element, in place of
  computing a maximum. When every such element is hashable, the message carries the set
  of exactly these elements, so each offending value once however often it occurs. When
  one of them is unhashable, the \<^verbatim>\<open>TypeError\<close> is the one of the set comprehension.
\<close>

lemma function_under_test_type_error:
  "((\<exists>m. function_under_test xs = Inl (TypeError m)) \<longleftrightarrow> (\<exists>x \<in> set xs. \<not> isinstance_int x))
   \<and> ((\<exists>x \<in> set xs. \<not> isinstance_int x) \<and> (\<forall>x \<in> set xs. \<not> isinstance_int x \<longrightarrow> hashable x)
        \<longrightarrow> function_under_test xs
            = Inl (TypeError (Expected_numbers {x \<in> set xs. \<not> isinstance_int x})))
   \<and> ((\<exists>x \<in> set xs. \<not> isinstance_int x \<and> \<not> hashable x)
        \<longrightarrow> function_under_test xs = Inl (TypeError Unhashable_type))"
proof -
  have valid: "\<forall>m. function_under_test xs \<noteq> Inl (TypeError m)"
    if "\<forall>x \<in> set xs. isinstance_int x"
  proof -
    from that have "list_all isinstance_int xs" by (simp add: list_all_iff)
    then show ?thesis
      by (simp add: function_under_test_all_int py_max_ints_no_type_error)
  qed
  have named: "function_under_test xs
      = Inl (TypeError (Expected_numbers {x \<in> set xs. \<not> isinstance_int x}))"
    if "\<exists>x \<in> set xs. \<not> isinstance_int x"
      and "\<forall>x \<in> set xs. \<not> isinstance_int x \<longrightarrow> hashable x"
  proof -
    from that(1) have "{x \<in> set xs. \<not> isinstance_int x} \<noteq> {}" by blast
    with non_numbers_hashable[OF that(2)] show ?thesis
      by (simp add: function_under_test_def)
  qed
  have unnamed: "function_under_test xs = Inl (TypeError Unhashable_type)"
    if "\<exists>x \<in> set xs. \<not> isinstance_int x \<and> \<not> hashable x"
    using non_numbers_unhashable[OF that] by (simp add: function_under_test_def)
  have invalid: "\<exists>m. function_under_test xs = Inl (TypeError m)"
    if ex: "\<exists>x \<in> set xs. \<not> isinstance_int x"
  proof (cases "\<forall>x \<in> set xs. \<not> isinstance_int x \<longrightarrow> hashable x")
    case True
    from named[OF ex True] show ?thesis by blast
  next
    case False
    then have "\<exists>x \<in> set xs. \<not> isinstance_int x \<and> \<not> hashable x" by blast
    from unnamed[OF this] show ?thesis by simp
  qed
  show ?thesis using valid invalid named unnamed by blast
qed

text \<open>
  The sequence of the tests, with the offending string twice: the message names it once.
\<close>

lemma function_under_test_type_error_example:
  "function_under_test [PInt 1, PStr ''non_number'', PStr ''non_number'']
     = Inl (TypeError (Expected_numbers {PStr ''non_number''}))"
proof -
  have "{x \<in> set [PInt 1, PStr ''non_number'', PStr ''non_number'']. \<not> isinstance_int x}
      = {PStr ''non_number''}"
    by auto
  then show ?thesis
    using function_under_test_type_error [of "[PInt 1, PStr ''non_number'', PStr ''non_number'']"]
    by simp
qed

text \<open>
  Claim C2 says that \<^verbatim>\<open>function_under_test\<close> raises a \<^verbatim>\<open>TypeError\<close> exactly when the
  sequence has an element that is not an integer, before any maximum is computed, and
  that the message names exactly the set of the offending values, each once. The code
  builds the message from a set of the offenders, and on \<^verbatim>\<open>[1, [2]]\<close> the offender is a
  list, which cannot enter a set: the set comprehension raises its own \<^verbatim>\<open>TypeError\<close>
  before the message is built, and the offending value \<^verbatim>\<open>[2]\<close> is not named. On
  \<^verbatim>\<open>[1, "non_number"]\<close>, where the offender is hashable, the message names it.
\<close>

theorem function_under_test_unhashable_offender:
  "\<not> isinstance_int (PList [PInt 2])
   \<and> function_under_test [PInt 1, PList [PInt 2]] = Inl (TypeError Unhashable_type)
   \<and> function_under_test [PInt 1, PList [PInt 2]]
       \<noteq> Inl (TypeError (Expected_numbers {PList [PInt 2]}))
   \<and> function_under_test [PInt 1, PStr ''non_number'']
       = Inl (TypeError (Expected_numbers {PStr ''non_number''}))"
  by (simp add: function_under_test_def non_numbers_in_sequence_def)

subsection \<open>Booleans pass the validation\<close>

text \<open>
  Claim C10. Booleans are instances of \<^verbatim>\<open>int\<close>: a sequence of integers and booleans
  raises no validation error, and the value returned is an element of the sequence that
  is greatest when \<^verbatim>\<open>True\<close> counts as 1 and \<^verbatim>\<open>False\<close> as 0. On \<^verbatim>\<open>[True, False]\<close> the
  result is \<^verbatim>\<open>True\<close>, and no boolean is ever among the offending values of a validation
  error.
\<close>

theorem booleans_are_accepted:
  "((\<forall>x \<in> set xs. isinstance_int x) \<longrightarrow>
      (\<forall>m. function_under_test xs \<noteq> Inl (TypeError m))
      \<and> (xs \<noteq> [] \<longrightarrow>
           (\<exists>r. function_under_test xs = Inr r \<and> r \<in> set xs
                \<and> (\<forall>x \<in> set xs. the (as_int x) \<le> the (as_int r)))))
   \<and> isinstance_int (PBool b)
   \<and> as_int (PBool True) = Some 1 \<and> as_int (PBool False) = Some 0
   \<and> function_under_test [PBool True, PBool False] = Inr (PBool True)
   \<and> (function_under_test ys = Inl (TypeError (Expected_numbers offending))
        \<longrightarrow> PBool b \<notin> offending)"
proof -
  have a: "(\<forall>m. function_under_test xs \<noteq> Inl (TypeError m))
      \<and> (xs \<noteq> [] \<longrightarrow>
           (\<exists>r. function_under_test xs = Inr r \<and> r \<in> set xs
                \<and> (\<forall>x \<in> set xs. the (as_int x) \<le> the (as_int r))))"
    if "\<forall>x \<in> set xs. isinstance_int x"
  proof -
    from that have all: "list_all isinstance_int xs" by (simp add: list_all_iff)
    then show ?thesis
      using py_max_ints[of xs]
      by (simp add: function_under_test_all_int py_max_ints_no_type_error)
  qed
  have b: "function_under_test [PBool True, PBool False] = Inr (PBool True)"
    by (simp add: function_under_test_def non_numbers_in_sequence_def py_max_def)
  have c: "PBool b \<notin> offending"
    if "function_under_test ys = Inl (TypeError (Expected_numbers offending))"
  proof (cases "\<forall>x \<in> set ys. isinstance_int x")
    case True
    then have "list_all isinstance_int ys" by (simp add: list_all_iff)
    with that show ?thesis
      by (simp add: function_under_test_all_int py_max_ints_no_type_error)
  next
    case False
    show ?thesis
    proof (cases "\<forall>x \<in> set ys. \<not> isinstance_int x \<longrightarrow> hashable x")
      case True
      from False have "{x \<in> set ys. \<not> isinstance_int x} \<noteq> {}" by blast
      with non_numbers_hashable[OF True] that
      have "offending = {x \<in> set ys. \<not> isinstance_int x}"
        by (simp add: function_under_test_def)
      then show ?thesis by simp
    next
      case False
      then have "\<exists>x \<in> set ys. \<not> isinstance_int x \<and> \<not> hashable x" by blast
      from non_numbers_unhashable[OF this] that show ?thesis
        by (simp add: function_under_test_def)
    qed
  qed
  show ?thesis using a b c by simp
qed

theorem booleans_are_accepted_witness:
  "isinstance_int (PBool False) \<and> isinstance_int (PInt 0) \<and> isinstance_int (PBool True)
   \<and> [PBool False, PInt 0, PBool True] \<noteq> []
   \<and> function_under_test [PBool True, PStr ''x''] = Inl (TypeError (Expected_numbers {PStr ''x''}))
   \<and> PBool True \<notin> {PStr ''x''}
   \<and> function_under_test [PBool False, PInt 0, PBool True] = Inr (PBool True)"
proof -
  have h: "function_under_test [PBool True, PStr ''x'']
      = Inl (TypeError (Expected_numbers {PStr ''x''}))"
    by (simp add: function_under_test_def non_numbers_in_sequence_def)
  have "\<exists>r. function_under_test [PBool False, PInt 0, PBool True] = Inr r
          \<and> r \<in> set [PBool False, PInt 0, PBool True]
          \<and> (\<forall>x \<in> set [PBool False, PInt 0, PBool True]. the (as_int x) \<le> the (as_int r))"
    using booleans_are_accepted [of "[PBool False, PInt 0, PBool True]" True
        "[PBool True, PStr ''x'']" "{PStr ''x''}"]
    by simp
  then have "function_under_test [PBool False, PInt 0, PBool True] = Inr (PBool True)"
    by auto
  with h show ?thesis by simp
qed

text \<open>
  An object that the constructor accepted answers \<^verbatim>\<open>method_under_test\<close> as
  \<^verbatim>\<open>function_under_test\<close> answers on the same sequence.
\<close>

lemma method_under_test_agrees:
  assumes "ClassUnderTest xs = Inr obj"
  shows "method_under_test obj = function_under_test xs"
proof -
  from assms have "construction_guard_clause xs = Inr ()" and obj: "obj = \<lparr>numbers_sequence = xs\<rparr>"
    by (auto simp: ClassUnderTest_def split: sum.splits)
  then have "non_numbers_in_sequence xs = Inr {}"
    by (auto simp: construction_guard_clause_def split: sum.splits if_splits)
  then show ?thesis
    by (simp add: function_under_test_def method_under_test_def obj)
qed

section \<open>Properties of the stores\<close>

subsection \<open>What a sequence of calls leaves in the dictionary\<close>

lemma map_upd_add_last:
  "m(k \<mapsto> v) ++ map_of (rev kvs) = m ++ map_of (rev ((k, v) # kvs))"
  by (rule ext) (simp add: map_add_def split: option.splits)

lemma calls_Cons:
  "calls repo (c # cs) self
     = (fst (call_repo repo c self) # fst (calls repo cs (snd (call_repo repo c self))),
        snd (calls repo cs (snd (call_repo repo c self))))"
  by (simp split: prod.splits)

lemma cloud_create_result:
  "create CloudRepository key val self
     = (Inr PNone, \<lparr>data_store = (data_store self)(key \<mapsto> val), slept = slept self + 10\<rparr>)"
  by (simp add: CloudRepository_def CloudRepository_create_def cloud_operation_def Let_def)

lemma cloud_read_state:
  "snd (read CloudRepository key self) = self\<lparr>slept := slept self + 10\<rparr>"
  by (simp add: CloudRepository_def CloudRepository_read_def cloud_operation_def Let_def)

lemma fake_create_result:
  "create FakeRepo key val self = (Inr PNone, \<lparr>data = (data self)(key \<mapsto> val)\<rparr>)"
  by (simp add: FakeRepo_def FakeRepo_create_def)

lemma fake_read_state: "snd (read FakeRepo key self) = self"
  by (simp add: FakeRepo_def FakeRepo_read_def)

lemma cloud_calls_store:
  "data_store (snd (calls CloudRepository cs self))
     = data_store self ++ map_of (rev (created cs))
   \<and> slept (snd (calls CloudRepository cs self)) = slept self + 10 * length cs"
proof (induction cs arbitrary: self)
  case Nil
  then show ?case by simp
next
  case (Cons c cs)
  show ?case
  proof (cases c)
    case (Create key val)
    let ?self' = "\<lparr>data_store = (data_store self)(key \<mapsto> val), slept = slept self + 10\<rparr>"
    have step: "snd (calls CloudRepository (c # cs) self) = snd (calls CloudRepository cs ?self')"
      unfolding Create by (simp only: calls_Cons call_repo.simps cloud_create_result snd_conv)
    have "data_store ?self' ++ map_of (rev (created cs))
        = data_store self ++ map_of (rev (created (c # cs)))"
      unfolding Create created.simps by (simp only: map_upd_add_last cloud_repository.simps)
    moreover have "slept ?self' + 10 * length cs = slept self + 10 * length (c # cs)"
      by simp
    ultimately show ?thesis
      unfolding step using Cons.IH[of ?self'] by (simp only:)
  next
    case (Read key)
    let ?self' = "self\<lparr>slept := slept self + 10\<rparr>"
    have step: "snd (calls CloudRepository (c # cs) self) = snd (calls CloudRepository cs ?self')"
      unfolding Read by (simp only: calls_Cons call_repo.simps cloud_read_state snd_conv)
    have "data_store ?self' ++ map_of (rev (created cs))
        = data_store self ++ map_of (rev (created (c # cs)))"
      unfolding Read created.simps by simp
    moreover have "slept ?self' + 10 * length cs = slept self + 10 * length (c # cs)"
      by simp
    ultimately show ?thesis
      unfolding step using Cons.IH[of ?self'] by (simp only:)
  qed
qed

lemma fake_calls_store:
  "data (snd (calls FakeRepo cs self)) = data self ++ map_of (rev (created cs))"
proof (induction cs arbitrary: self)
  case Nil
  then show ?case by simp
next
  case (Cons c cs)
  show ?case
  proof (cases c)
    case (Create key val)
    let ?self' = "\<lparr>data = (data self)(key \<mapsto> val)\<rparr>"
    have step: "snd (calls FakeRepo (c # cs) self) = snd (calls FakeRepo cs ?self')"
      unfolding Create by (simp only: calls_Cons call_repo.simps fake_create_result snd_conv)
    have "data ?self' ++ map_of (rev (created cs)) = data self ++ map_of (rev (created (c # cs)))"
      unfolding Create created.simps by (simp only: map_upd_add_last fake_repo.simps)
    then show ?thesis
      unfolding step using Cons.IH[of ?self'] by (simp only:)
  next
    case (Read key)
    have step: "snd (calls FakeRepo (c # cs) self) = snd (calls FakeRepo cs self)"
      unfolding Read by (simp only: calls_Cons call_repo.simps fake_read_state snd_conv)
    show ?thesis
      unfolding step using Cons.IH[of self] unfolding Read created.simps by (simp only:)
  qed
qed

lemma cloud_read_result:
  "fst (read CloudRepository key self)
     = (case data_store self key of None \<Rightarrow> Inl (KeyError key) | Some val \<Rightarrow> Inr (PStr val))"
  by (simp add: CloudRepository_def CloudRepository_read_def cloud_operation_def)

lemma fake_read_result:
  "fst (read FakeRepo key self)
     = (case data self key of None \<Rightarrow> Inl (KeyError key) | Some val \<Rightarrow> Inr (PStr val))"
  by (simp add: FakeRepo_def FakeRepo_read_def)

lemma created_replicate: "created (replicate n (Create key val)) = replicate n (key, val)"
  by (induction n) auto

lemma map_of_replicate: "map_of (replicate (Suc n) (key, val)) = [key \<mapsto> val]"
  by (induction n) auto

subsection \<open>Reading what was written\<close>

text \<open>
  Claim C3. On a \<^verbatim>\<open>CloudRepository\<close> and on a \<^verbatim>\<open>FakeRepo\<close>, in any state: after a
  sequence of calls whose last \<^verbatim>\<open>create\<close> for the key is \<^verbatim>\<open>create(key, val)\<close>,
  \<^verbatim>\<open>read(key)\<close> returns \<^verbatim>\<open>val\<close>. In particular \<^verbatim>\<open>create(key, val)\<close> repeated any number
  of times is followed by \<^verbatim>\<open>read(key)\<close> returning \<^verbatim>\<open>val\<close>, and it leaves the dictionary
  as a single \<^verbatim>\<open>create(key, val)\<close> does.
\<close>

theorem read_after_create:
  "(map_of (rev (created cs)) key = Some val \<longrightarrow>
      fst (read CloudRepository key (snd (calls CloudRepository cs cloud))) = Inr (PStr val)
      \<and> fst (read FakeRepo key (snd (calls FakeRepo cs fake))) = Inr (PStr val))
   \<and> fst (read CloudRepository key
        (snd (calls CloudRepository (replicate (Suc n) (Create key val)) cloud))) = Inr (PStr val)
   \<and> data_store (snd (calls CloudRepository (replicate (Suc n) (Create key val)) cloud))
       = data_store (snd (create CloudRepository key val cloud))
   \<and> fst (read FakeRepo key
        (snd (calls FakeRepo (replicate (Suc n) (Create key val)) fake))) = Inr (PStr val)
   \<and> snd (calls FakeRepo (replicate (Suc n) (Create key val)) fake)
       = snd (create FakeRepo key val fake)"
proof -
  have rep: "map_of (rev (created (replicate (Suc n) (Create key val)))) = [key \<mapsto> val]"
    by (simp only: created_replicate rev_replicate map_of_replicate)
  have a: "fst (read CloudRepository key (snd (calls CloudRepository cs cloud))) = Inr (PStr val)"
    if "map_of (rev (created cs)) key = Some val" for cs
    using that by (simp add: cloud_read_result cloud_calls_store map_add_def)
  have b: "fst (read FakeRepo key (snd (calls FakeRepo cs fake))) = Inr (PStr val)"
    if "map_of (rev (created cs)) key = Some val" for cs
    using that by (simp add: fake_read_result fake_calls_store map_add_def)
  have c: "data_store (snd (calls CloudRepository (replicate (Suc n) (Create key val)) cloud))
       = data_store (snd (create CloudRepository key val cloud))"
    by (simp only: cloud_calls_store rep)
       (simp add: CloudRepository_def CloudRepository_create_def cloud_operation_def)
  have "data (snd (calls FakeRepo (replicate (Suc n) (Create key val)) fake))
       = data (snd (create FakeRepo key val fake))"
    by (simp only: fake_calls_store rep) (simp add: FakeRepo_def FakeRepo_create_def)
  then have d: "snd (calls FakeRepo (replicate (Suc n) (Create key val)) fake)
       = snd (create FakeRepo key val fake)"
    by simp
  have rep': "map_of (rev (created (replicate (Suc n) (Create key val)))) key = Some val"
    by (simp only: rep) simp
  show ?thesis
  proof (intro conjI impI)
    assume h: "map_of (rev (created cs)) key = Some val"
    show "fst (read CloudRepository key (snd (calls CloudRepository cs cloud))) = Inr (PStr val)"
      by (rule a[OF h])
    show "fst (read FakeRepo key (snd (calls FakeRepo cs fake))) = Inr (PStr val)"
      by (rule b[OF h])
  qed (rule a[OF rep'] b[OF rep'] c d)+
qed

theorem read_after_create_witness:
  "map_of (rev (created [Create ''k'' ''1'', Read ''k'', Create ''j'' ''3'', Create ''k'' ''2'']))
      ''k'' = Some ''2''
   \<and> fst (read CloudRepository ''k''
        (snd (calls CloudRepository
           [Create ''k'' ''1'', Read ''k'', Create ''j'' ''3'', Create ''k'' ''2'']
           CloudRepository_init))) = Inr (PStr ''2'')
   \<and> fst (read FakeRepo ''k''
        (snd (calls FakeRepo
           [Create ''k'' ''1'', Read ''k'', Create ''j'' ''3'', Create ''k'' ''2'']
           FakeRepo_init))) = Inr (PStr ''2'')"
  using read_after_create
    [of "[Create ''k'' ''1'', Read ''k'', Create ''j'' ''3'', Create ''k'' ''2'']" "''k''" "''2''"
      CloudRepository_init FakeRepo_init 0]
  by simp

subsection \<open>The fake against the production-like store\<close>

lemma fake_matches_cloud:
  "data_store cloud = data fake \<Longrightarrow>
   fst (calls CloudRepository cs cloud) = fst (calls FakeRepo cs fake)
   \<and> data_store (snd (calls CloudRepository cs cloud)) = data (snd (calls FakeRepo cs fake))"
proof (induction cs arbitrary: cloud fake)
  case Nil
  then show ?case by simp
next
  case (Cons c cs)
  have same: "fst (call_repo CloudRepository c cloud) = fst (call_repo FakeRepo c fake)
      \<and> data_store (snd (call_repo CloudRepository c cloud)) = data (snd (call_repo FakeRepo c fake))"
    using Cons.prems
    by (cases c)
       (simp_all add: cloud_create_result fake_create_result cloud_read_result fake_read_result
          cloud_read_state fake_read_state)
  then have "data_store (snd (call_repo CloudRepository c cloud)) = data (snd (call_repo FakeRepo c fake))"
    by simp
  from Cons.IH[OF this] same show ?case
    by (simp only: calls_Cons fst_conv snd_conv)
qed

text \<open>
  Claim C4. Started empty and given the same sequence of \<^verbatim>\<open>create\<close> and \<^verbatim>\<open>read\<close> calls,
  a \<^verbatim>\<open>FakeRepo\<close> and a \<^verbatim>\<open>CloudRepository\<close> answer every call alike: the same value
  for every \<^verbatim>\<open>read\<close> that succeeds and the same \<^verbatim>\<open>KeyError\<close> for every one that fails;
  their dictionaries end equal. The difference is the latency: ten seconds slept for
  each call on the \<^verbatim>\<open>CloudRepository\<close>.
\<close>

theorem fake_equivalent_to_cloud:
  "fst (calls FakeRepo cs FakeRepo_init) = fst (calls CloudRepository cs CloudRepository_init)
   \<and> data (snd (calls FakeRepo cs FakeRepo_init))
       = data_store (snd (calls CloudRepository cs CloudRepository_init))
   \<and> slept (snd (calls CloudRepository cs CloudRepository_init)) = 10 * length cs"
proof -
  have "data_store CloudRepository_init = data FakeRepo_init"
    by (simp add: CloudRepository_init_def FakeRepo_init_def)
  from fake_matches_cloud[OF this, of cs] show ?thesis
    by (simp add: cloud_calls_store CloudRepository_init_def)
qed

subsection \<open>The stub\<close>

lemma int_of_str_2: "int_of_str ''2'' = Inr 2"
  by (simp add: int_of_str_def strip_def is_space_def decimal_def digit_val_def
      max_str_digits_def)

text \<open>The scenario of \<^verbatim>\<open>test_with_fake\<close>: create \<^verbatim>\<open>("2", "2")\<close>, then read and parse.\<close>

lemma get_and_parse_value_after_create:
  "fst (get_and_parse_value FakeRepo ''2'' (snd (create FakeRepo ''2'' ''2'' FakeRepo_init)))
     = Inr 2"
  by (simp add: get_and_parse_value_def FakeRepo_def FakeRepo_read_def FakeRepo_create_def
      FakeRepo_init_def int_of_str_2)



subsection \<open>The mock\<close>

lemma mock_methods: "create MockRepo = MockRepo_create" "read MockRepo = MockRepo_read"
  by (simp_all add: MockRepo_def)

lemma mock_calls_record:
  "create_call_count (snd (calls MockRepo cs self))
     = create_call_count self + int (length (created cs))
   \<and> create_call_args (snd (calls MockRepo cs self)) = create_call_args self @ created cs
   \<and> read_call_count (snd (calls MockRepo cs self))
     = read_call_count self + int (length (were_read cs))
   \<and> read_call_args (snd (calls MockRepo cs self)) = read_call_args self @ were_read cs"
proof (induction cs arbitrary: self)
  case Nil
  then show ?case by simp
next
  case (Cons c cs)
  show ?case
  proof (cases c)
    case (Create key val)
    let ?self' = "snd (MockRepo_create key val self)"
    have step: "snd (calls MockRepo (c # cs) self) = snd (calls MockRepo cs ?self')"
      unfolding Create by (simp only: calls_Cons call_repo.simps snd_conv mock_methods)
    have "create_call_count ?self' = create_call_count self + 1"
      "create_call_args ?self' = create_call_args self @ [(key, val)]"
      "read_call_count ?self' = read_call_count self"
      "read_call_args ?self' = read_call_args self"
      by (simp_all add: MockRepo_create_def Let_def)
    then show ?thesis
      unfolding step using Cons.IH[of ?self'] unfolding Create by simp
  next
    case (Read key)
    let ?self' = "snd (MockRepo_read key self)"
    have step: "snd (calls MockRepo (c # cs) self) = snd (calls MockRepo cs ?self')"
      unfolding Read by (simp only: calls_Cons call_repo.simps snd_conv mock_methods)
    have "create_call_count ?self' = create_call_count self"
      "create_call_args ?self' = create_call_args self"
      "read_call_count ?self' = read_call_count self + 1"
      "read_call_args ?self' = read_call_args self @ [key]"
      by (simp_all add: MockRepo_read_def Let_def)
    then show ?thesis
      unfolding step using Cons.IH[of ?self'] unfolding Read by simp
  qed
qed

text \<open>
  Claim C6. On a fresh \<^verbatim>\<open>MockRepo\<close>, after any sequence of calls, of which N are
  \<^verbatim>\<open>create\<close> and M are \<^verbatim>\<open>read\<close>: \<^verbatim>\<open>create_call_count\<close> is N, \<^verbatim>\<open>read_call_count\<close> is M,
  \<^verbatim>\<open>create_call_args\<close> is the list of the \<^verbatim>\<open>(key, value)\<close> pairs in call order and
  \<^verbatim>\<open>read_call_args\<close> the list of the keys read in call order.
\<close>

theorem mock_records_calls:
  "create_call_count (snd (calls MockRepo cs MockRepo_init)) = int (length (created cs))
   \<and> read_call_count (snd (calls MockRepo cs MockRepo_init)) = int (length (were_read cs))
   \<and> create_call_args (snd (calls MockRepo cs MockRepo_init)) = created cs
   \<and> read_call_args (snd (calls MockRepo cs MockRepo_init)) = were_read cs
   \<and> length (created cs) + length (were_read cs) = length cs"
proof -
  have "length (created cs) + length (were_read cs) = length cs"
    by (induction cs rule: created.induct) simp_all
  then show ?thesis
    using mock_calls_record[of cs MockRepo_init] by (simp add: MockRepo_init_def)
qed

subsection \<open>Lookup errors\<close>

lemma map_of_rev_None: "map_of (rev kvs) k = None \<longleftrightarrow> k \<notin> fst ` set kvs"
  by (simp add: map_of_eq_None_iff)

text \<open>
  Claim C7. On a \<^verbatim>\<open>CloudRepository\<close> and on a \<^verbatim>\<open>FakeRepo\<close> started empty, \<^verbatim>\<open>read(key)\<close>
  raises a \<^verbatim>\<open>KeyError\<close> exactly when no \<^verbatim>\<open>create\<close> was called for the key on that
  instance, and returns the value last created otherwise. A \<^verbatim>\<open>DummyRepo\<close> and a
  \<^verbatim>\<open>StubRepo\<close> raise nothing for any key: they return \<^verbatim>\<open>None\<close> and \<^verbatim>\<open>"2"\<close>.
\<close>

theorem lookup_error_iff_never_created:
  "((\<exists>k. fst (read CloudRepository key (snd (calls CloudRepository cs CloudRepository_init)))
          = Inl (KeyError k))
      \<longleftrightarrow> key \<notin> fst ` set (created cs))
   \<and> ((\<exists>k. fst (read FakeRepo key (snd (calls FakeRepo cs FakeRepo_init))) = Inl (KeyError k))
      \<longleftrightarrow> key \<notin> fst ` set (created cs))
   \<and> fst (read CloudRepository key (snd (calls CloudRepository cs CloudRepository_init)))
       = (case map_of (rev (created cs)) key of
            None \<Rightarrow> Inl (KeyError key) | Some val \<Rightarrow> Inr (PStr val))
   \<and> fst (read FakeRepo key (snd (calls FakeRepo cs FakeRepo_init)))
       = (case map_of (rev (created cs)) key of
            None \<Rightarrow> Inl (KeyError key) | Some val \<Rightarrow> Inr (PStr val))
   \<and> fst (read DummyRepo key (snd (calls DummyRepo cs dummy))) = Inr PNone
   \<and> fst (read StubRepo key (snd (calls StubRepo cs stub))) = Inr (PStr ''2'')"
proof -
  have c: "data_store (snd (calls CloudRepository cs CloudRepository_init)) key
      = map_of (rev (created cs)) key"
    by (simp add: cloud_calls_store CloudRepository_init_def)
  have f: "data (snd (calls FakeRepo cs FakeRepo_init)) key = map_of (rev (created cs)) key"
    by (simp add: fake_calls_store FakeRepo_init_def)
  show ?thesis
    unfolding cloud_read_result fake_read_result c f
    by (auto simp: DummyRepo_def StubRepo_def map_of_rev_None[symmetric] split: option.splits)
qed

section \<open>Properties of the session hook\<close>

text \<open>The body of the hook maps exit status 5 to 0 and leaves every other status.\<close>

lemma pytest_sessionstart_exitstatus:
  "exitstatus (pytest_sessionstart session) = (if exitstatus session = 5 then 0 else exitstatus session)"
  by (simp add: pytest_sessionstart_def)

text \<open>
  Claim C8 says that the hook rewrites the exit status of a session that collected no
  tests from 5 to 0. The hook is \<^verbatim>\<open>pytest_sessionstart\<close>: pytest calls it before
  collection, when the exit status is still 0, and stores the outcome of the run
  afterwards. A session that collects no tests therefore still ends with status 5, and
  the hook changes the status of no session at all.
\<close>

theorem no_tests_collected_still_exits_5:
  "wrap_session pytest_sessionstart 5 = 5
   \<and> wrap_session pytest_sessionstart outcome = outcome
   \<and> pytest_sessionstart \<lparr>exitstatus = 0\<rparr> = \<lparr>exitstatus = 0\<rparr>"
  by (simp add: wrap_session_def pytest_sessionstart_def)

section \<open>Properties of the update task\<close>

lemma in_strict_sequence_all_ok:
  "list_all (\<lambda>s. exit_code s = 0) ss \<Longrightarrow> in_strict_sequence exit_code ss = (Inr (), ss)"
  by (induction ss) auto

lemma in_strict_sequence_first_failure:
  "list_all (\<lambda>s. exit_code s = 0) before \<Longrightarrow> exit_code s \<noteq> 0 \<Longrightarrow>
   in_strict_sequence exit_code (before @ s # after)
     = (Inl (UnexpectedExit s (exit_code s)), before @ [s])"
  by (induction before) auto

lemma update_vscode_with_password:
  assumes "read_secrets yaml_load read_text = Inr secrets"
    and "getitem secrets ''password'' = Inr pw"
  shows "update_vscode exit_code yaml_load read_text \<lparr>command_cwds = [], invoked = history\<rparr>
     = (fst (in_strict_sequence exit_code (steps pw)),
        \<lparr>command_cwds = [], invoked = history @ snd (in_strict_sequence exit_code (steps pw))\<rparr>)"
  using assms
  by (simp add: update_vscode_def steps_def and_then_def context_cd_def context_run_def
      context_sudo_def Let_def split: prod.splits)

text \<open>
  Claim C9. \<^verbatim>\<open>update_vscode\<close> first gets the password from the secrets; when that
  fails, the exception is passed on and no command is run. With the password it runs
  the four steps (clone, build inside the cloned directory answering the prompt, install
  with \<^verbatim>\<open>sudo\<close> and the password, remove the clone with \<^verbatim>\<open>sudo\<close> and the password) in
  this order, each at most once, up to the first step whose exit code is not 0; that
  step's \<^verbatim>\<open>UnexpectedExit\<close> is the result, no later step is run and nothing is undone.
\<close>

theorem update_vscode_strict_sequence:
  "(read_secrets yaml_load read_text = Inr secrets \<and> getitem secrets ''password'' = Inr pw \<longrightarrow>
      update_vscode exit_code yaml_load read_text \<lparr>command_cwds = [], invoked = history\<rparr>
        = (fst (in_strict_sequence exit_code (steps pw)),
           \<lparr>command_cwds = [],
            invoked = history @ snd (in_strict_sequence exit_code (steps pw))\<rparr>))
   \<and> (read_secrets yaml_load read_text = Inl e \<longrightarrow>
        update_vscode exit_code yaml_load read_text ctx = (Inl e, ctx))
   \<and> (read_secrets yaml_load read_text = Inr secrets \<and> getitem secrets ''password'' = Inl e \<longrightarrow>
        update_vscode exit_code yaml_load read_text ctx = (Inl e, ctx))"
  using update_vscode_with_password[of yaml_load read_text secrets pw exit_code history]
  by (simp add: update_vscode_def)

theorem update_vscode_strict_sequence_witness:
  "read_secrets (\<lambda>stream. Inr (YMapping [''password'' \<mapsto> ''pw''])) (Inr ''password: pw'')
     = Inr (YMapping [''password'' \<mapsto> ''pw''])
   \<and> getitem (YMapping [''password'' \<mapsto> ''pw'']) ''password'' = Inr ''pw''
   \<and> update_vscode (\<lambda>step. if step = Sudo [repo_path] ''pacman -U'' ''pw'' then 1 else 0)
        (\<lambda>stream. Inr (YMapping [''password'' \<mapsto> ''pw''])) (Inr ''password: pw'')
        \<lparr>command_cwds = [], invoked = []\<rparr>
     = (Inl (UnexpectedExit (Sudo [repo_path] ''pacman -U'' ''pw'') 1),
        \<lparr>command_cwds = [],
         invoked = [Run [] cmd_clone_repo, Run [repo_path] cmd_makepkg,
                    Sudo [repo_path] ''pacman -U'' ''pw'']\<rparr>)
   \<and> update_vscode (\<lambda>step. 0)
        (\<lambda>stream. Inr (YMapping [''password'' \<mapsto> ''pw''])) (Inr ''password: pw'')
        \<lparr>command_cwds = [], invoked = []\<rparr>
     = (Inr (), \<lparr>command_cwds = [], invoked = steps ''pw''\<rparr>)
   \<and> read_secrets (\<lambda>stream. Inr YOther) (Inl FileNotFoundError) = Inl FileNotFoundError
   \<and> update_vscode (\<lambda>step. 0) (\<lambda>stream. Inr YOther) (Inl FileNotFoundError)
        \<lparr>command_cwds = [], invoked = []\<rparr>
     = (Inl FileNotFoundError, \<lparr>command_cwds = [], invoked = []\<rparr>)
   \<and> read_secrets (\<lambda>stream. Inr (YMapping Map.empty)) (Inr ''a: b'') = Inr (YMapping Map.empty)
   \<and> getitem (YMapping Map.empty) ''password'' = Inl (KeyError ''password'')
   \<and> update_vscode (\<lambda>step. 0) (\<lambda>stream. Inr (YMapping Map.empty)) (Inr ''a: b'')
        \<lparr>command_cwds = [], invoked = []\<rparr>
     = (Inl (KeyError ''password''), \<lparr>command_cwds = [], invoked = []\<rparr>)"
proof -
  let ?yaml = "\<lambda>stream :: string. Inr (YMapping [''password'' \<mapsto> ''pw'']) :: error + yaml_value"
  let ?ctx = "\<lparr>command_cwds = [], invoked = []\<rparr>"
  have s1: "read_secrets ?yaml (Inr ''password: pw'') = Inr (YMapping [''password'' \<mapsto> ''pw''])"
    by (simp add: read_secrets_def)
  have g1: "getitem (YMapping [''password'' \<mapsto> ''pw'']) ''password'' = Inr ''pw''"
    by (simp add: getitem_def)
  have s2: "read_secrets (\<lambda>stream. Inr YOther) (Inl FileNotFoundError) = Inl FileNotFoundError"
    by (simp add: read_secrets_def)
  have s3: "read_secrets (\<lambda>stream. Inr (YMapping Map.empty)) (Inr ''a: b'')
      = Inr (YMapping Map.empty)"
    by (simp add: read_secrets_def)
  have g3: "getitem (YMapping Map.empty) ''password'' = Inl (KeyError ''password'')"
    by (simp add: getitem_def)
  have fails: "in_strict_sequence
      (\<lambda>step. if step = Sudo [repo_path] ''pacman -U'' ''pw'' then 1 else 0) (steps ''pw'')
      = (Inl (UnexpectedExit (Sudo [repo_path] ''pacman -U'' ''pw'') 1),
         [Run [] cmd_clone_repo, Run [repo_path] cmd_makepkg,
          Sudo [repo_path] ''pacman -U'' ''pw''])"
    by (simp add: steps_def)
  have passes: "in_strict_sequence (\<lambda>step. 0) (steps ''pw'') = (Inr (), steps ''pw'')"
    by (simp add: steps_def)
  show ?thesis
    using s1 g1 s2 s3 g3
      update_vscode_strict_sequence
        [of ?yaml "Inr ''password: pw''" "YMapping [''password'' \<mapsto> ''pw'']" "''pw''"
          "\<lambda>step. if step = Sudo [repo_path] ''pacman -U'' ''pw'' then 1 else 0" "[]"
          FileNotFoundError ?ctx]
      update_vscode_strict_sequence
        [of ?yaml "Inr ''password: pw''" "YMapping [''password'' \<mapsto> ''pw'']" "''pw''"
          "\<lambda>step. 0" "[]" FileNotFoundError ?ctx]
      update_vscode_strict_sequence
        [of "\<lambda>stream. Inr YOther" "Inl FileNotFoundError" YOther "''pw''"
          "\<lambda>step. 0" "[]" FileNotFoundError ?ctx]
      update_vscode_strict_sequence
        [of "\<lambda>stream. Inr (YMapping Map.empty)" "Inr ''a: b''" "YMapping Map.empty" "''pw''"
          "\<lambda>step. 0" "[]" "KeyError ''password''" ?ctx]
    by (simp only: fails passes fst_conv snd_conv append_Nil simp_thms)
qed

end
